theory Spec2Isabelle
  imports Complex_Main
begin

section \<open>Errors and arrays\<close>

text \<open>
  Exceptions of the Python source are values. \<open>AssertionError\<close> is what a failed
  \<^verbatim>\<open>chex.assert_*\<close> or \<^verbatim>\<open>assert\<close> raises, \<open>TypeError\<close> and \<open>ValueError\<close> are
  the shape errors of JAX, \<open>PyException\<close> is the bare \<^verbatim>\<open>raise Exception\<close>.
\<close>

datatype error =
    AssertionError
  | TypeError
  | ValueError
  | ZeroDivisionError
  | AttributeError
  | KeyError
  | PyException
  | BufferUnderfull

text \<open>
  A JAX array is its shape and its entries in row-major order; its rank is the length of
  the shape. Entries are real numbers: rounding, NaN and infinities of the floating-point
  arrays are outside the model.
\<close>

record ndarray =
  shape :: "nat list"
  data :: "real list"

definition ndim :: "ndarray \<Rightarrow> nat" where
  "ndim x = length (shape x)"

section \<open>The loss on buffer samples (train/fab_train_with_buffer.py)\<close>

text \<open>
  \<^verbatim>\<open>jnp.mean\<close> of a rank-1 array. The mean of an empty array is NaN in JAX; the model
  is meant for non-empty arrays.
\<close>

definition mean :: "real list \<Rightarrow> real" where
  "mean xs = sum_list xs / real (length xs)"

text \<open>\<^verbatim>\<open>jnp.clip(a, a_max=m)\<close>: only the upper bound is given.\<close>

definition clip_a_max :: "real list \<Rightarrow> real \<Rightarrow> real list" where
  "clip_a_max a m = map (\<lambda>v. min v m) a"

text \<open>
  A binary operation of \<^verbatim>\<open>jnp\<close> on two rank-1 arrays, with NumPy broadcasting: equal
  lengths combine entry by entry, a length-1 operand is repeated, anything else is a
  shape error.
\<close>

definition broadcast2 :: "(real \<Rightarrow> real \<Rightarrow> real) \<Rightarrow> real list \<Rightarrow> real list \<Rightarrow> error + real list" where
  "broadcast2 f a b =
     (if length a = length b then Inr (map2 f a b)
      else if length b = 1 then Inr (map (\<lambda>v. f v (hd b)) a)
      else if length a = 1 then Inr (map (\<lambda>v. f (hd a) v) b)
      else Inl TypeError)"

text \<open>
  \<^verbatim>\<open>fab_loss_buffer_samples\<close>. The batch \<open>x\<close> is an array that must have rank 4;
  \<open>log_q_old\<close> and the flow's log-density are rank-1 arrays (lists), so
  \<^verbatim>\<open>chex.assert_rank(log_q_old, 1)\<close> holds by typing. \<^verbatim>\<open>stop_gradient\<close> is the
  identity on values.
\<close>

definition fab_loss_buffer_samples ::
  "'p \<Rightarrow> ndarray \<Rightarrow> real list \<Rightarrow> real \<Rightarrow> ('p \<Rightarrow> ndarray \<Rightarrow> real list) \<Rightarrow> real
     \<Rightarrow> error + (real \<times> (real list \<times> real list))" where
  "fab_loss_buffer_samples params x log_q_old alpha log_q_fn_apply w_adjust_clip =
     (if ndim x \<noteq> 4 then Inl AssertionError
      else
        let log_q = log_q_fn_apply params x in
        case broadcast2 (-) log_q log_q_old of
          Inl e \<Rightarrow> Inl e
        | Inr d \<Rightarrow>
            let log_w_adjust = map (\<lambda>v. (1 - alpha) * v) d in
            if length log_q \<noteq> length log_w_adjust then Inl AssertionError
            else
              let w_adjust = clip_a_max (map exp log_w_adjust) w_adjust_clip in
              Inr (- mean (map2 (*) w_adjust log_q), (log_w_adjust, log_q)))"


section \<open>The FAB training loop with a buffer (train/fab_train_with_buffer.py)\<close>

text \<open>
  Modelled from the spec: the class \<^verbatim>\<open>IgnoreNanOptState\<close> of \<^verbatim>\<open>utils/optimize.py\<close> is not
  among the sources. The step only tests \<^verbatim>\<open>isinstance(opt_state, IgnoreNanOptState)\<close> and
  reads the field \<^verbatim>\<open>ignored_grads_count\<close> (the counter of NaN gradients that were zeroed),
  so an optimizer state is either such a state or any other state.
\<close>

datatype 'o opt_state =
    IgnoreNanOptState (ignored_grads_count: int) 'o
  | OtherOptState 'o

text \<open>A diagnostics record \<^verbatim>\<open>info\<close> is a Python dict from names to scalars.\<close>

type_synonym info = "string \<rightharpoonup> real"

text \<open>\<^verbatim>\<open>TrainStateWithBuffer\<close>.\<close>

record ('p, 'k, 'o, 's, 'b) TrainStateWithBuffer =
  params :: 'p
  key :: 'k
  opt_state :: "'o opt_state"
  smc_state :: 's
  buffer_state :: 'b

text \<open>
  The arguments of \<^verbatim>\<open>build_fab_with_buffer_init_step_fns\<close> and the library functions its
  closures call. The flow, the SMC sampler, the buffer of \<^verbatim>\<open>fabjax\<close>, the optimizer of
  \<^verbatim>\<open>optax\<close>, the random-key splitting and the automatic differentiation of JAX are not
  code of this repository: they are parameters, pure functions of their arguments.
  A flattened sample is a \<open>real list\<close>, a batch a list of samples.
  \<^item> \<open>random_split k num\<close> is \<^verbatim>\<open>jax.random.split(k, num)\<close>;
  \<^item> \<open>smc_forward p s k\<close> is the closure of \<^verbatim>\<open>build_smc_forward_pass\<close> called with
    \<^verbatim>\<open>unflatten_output=False\<close>; it returns
    \<^verbatim>\<open>(sample_flow, x_smc, log_w, log_q, smc_state, smc_info)\<close>;
  \<^item> \<open>flat_log_prob_components p\<close> gives the two components the step uses,
    \<^verbatim>\<open>unflatten\<close> and \<^verbatim>\<open>flow_log_prob_apply\<close>;
  \<^item> \<open>loss_grad f p x lq\<close> is the gradient that \<^verbatim>\<open>jax.value_and_grad\<close> returns for
    \<^verbatim>\<open>fab_loss_buffer_samples\<close> at parameters \<open>p\<close>, batch \<open>x\<close>, \<open>log_q_old = lq\<close> and
    log-density function \<open>f\<close>;
  \<^item> \<open>buffer_init_state\<close>, \<open>buffer_add\<close>, \<open>buffer_adjust\<close>, \<open>buffer_sample_n_batches\<close>
    are the operations of the prioritised buffer.
\<close>

record ('p, 'k, 'o, 's, 'b, 'g, 'u) fab =
  batch_size :: int
  n_updates_per_smc_forward_pass :: int
  alpha :: real
  w_adjust_clip :: real
  flat_event_shape :: int
  min_lengtht_to_sample :: int
  random_split :: "'k \<Rightarrow> nat \<Rightarrow> 'k list"
  flow_init :: "'k \<Rightarrow> 'p"
  flat_log_prob_components ::
    "'p \<Rightarrow> (real list list \<Rightarrow> ndarray) \<times> ('p \<Rightarrow> ndarray \<Rightarrow> real list)"
  loss_grad :: "('p \<Rightarrow> ndarray \<Rightarrow> real list) \<Rightarrow> 'p \<Rightarrow> ndarray \<Rightarrow> real list \<Rightarrow> 'g"
  optimizer_init :: "'p \<Rightarrow> 'o opt_state"
  optimizer_update :: "'g \<Rightarrow> 'o opt_state \<Rightarrow> 'p \<Rightarrow> 'u \<times> 'o opt_state"
  apply_updates :: "'p \<Rightarrow> 'u \<Rightarrow> 'p"
  global_norm :: "'g \<Rightarrow> real"
  ravel_pytree :: "'g \<Rightarrow> real list"
  smc_init :: "'k \<Rightarrow> 's"
  smc_forward ::
    "'p \<Rightarrow> 's \<Rightarrow> 'k \<Rightarrow> real list list \<times> real list list \<times> real list \<times> real list \<times> 's \<times> info"
  buffer_init_state :: "real list list \<Rightarrow> real list \<Rightarrow> real list \<Rightarrow> 'b"
  buffer_add :: "real list list \<Rightarrow> real list \<Rightarrow> real list \<Rightarrow> 'b \<Rightarrow> 'b"
  buffer_adjust :: "real list \<Rightarrow> real list \<Rightarrow> nat list \<Rightarrow> 'b \<Rightarrow> 'b"
  buffer_sample_n_batches ::
    "'k \<Rightarrow> 'b \<Rightarrow> int \<Rightarrow> int \<Rightarrow> real list list list \<times> real list list \<times> nat list list"

text \<open>
  \<^verbatim>\<open>jax.lax.scan(f, init, xs)\<close>: the body runs on the slices of \<open>xs\<close> in order, the carry
  of one call is the carry of the next, the second components are stacked. The carry a
  body returns must have the type structure of the carry it was given (\<open>same\<close>), or the
  scan is a \<open>TypeError\<close>.
\<close>

fun lax_scan ::
  "('c \<Rightarrow> 'a \<Rightarrow> error + ('c \<times> 'y)) \<Rightarrow> ('c \<Rightarrow> 'c \<Rightarrow> bool) \<Rightarrow> 'c \<Rightarrow> 'a list
     \<Rightarrow> error + ('c \<times> 'y list)" where
  "lax_scan f same c [] = Inr (c, [])"
| "lax_scan f same c (x # xs) =
     (case f c x of
        Inl e \<Rightarrow> Inl e
      | Inr (c', y) \<Rightarrow>
          if \<not> same c c' then Inl TypeError
          else (case lax_scan f same c' xs of
                  Inl e \<Rightarrow> Inl e
                | Inr (c'', ys) \<Rightarrow> Inr (c'', y # ys)))"

text \<open>\<^verbatim>\<open>jnp.max\<close> of a rank-1 array; an empty array has no maximum.\<close>

definition jnp_max :: "real list \<Rightarrow> error + real" where
  "jnp_max xs = (if xs = [] then Inl ValueError else Inr (Max (set xs)))"

text \<open>\<^verbatim>\<open>one_gradient_update\<close>: one update of the flow parameters on one batch of the buffer.\<close>

definition one_gradient_update ::
  "('p, 'k, 'o, 's, 'b, 'g, 'u) fab \<Rightarrow> 'p \<times> 'o opt_state \<Rightarrow> real list list \<times> real list
     \<Rightarrow> error + (('p \<times> 'o opt_state) \<times> (info \<times> real list \<times> real list))" where
  "one_gradient_update env carry xs =
     (let (flow_params, opt_st) = carry;
          (x, log_q_old) = xs;
          info = Map.empty;
          (unflatten, flow_log_prob_apply) = flat_log_prob_components env flow_params;
          x = unflatten x
      in case fab_loss_buffer_samples flow_params x log_q_old (alpha env) flow_log_prob_apply
                (w_adjust_clip env) of
           Inl e \<Rightarrow> Inl e
         | Inr (loss, (log_w_adjust, log_q)) \<Rightarrow>
             let grad = loss_grad env flow_log_prob_apply flow_params x log_q_old;
                 (updates, new_opt_state) = optimizer_update env grad opt_st flow_params;
                 new_params = apply_updates env flow_params updates;
                 grad_norm = global_norm env grad;
                 info = info(''loss'' \<mapsto> loss);
                 info = info(''log10_grad_norm'' \<mapsto> log 10 grad_norm)
             in case jnp_max (ravel_pytree env grad) of
                  Inl e \<Rightarrow> Inl e
                | Inr max_grad \<Rightarrow>
                    let info = info(''log10_max_param_grad'' \<mapsto> ln max_grad);
                        info = (case opt_st of
                                  IgnoreNanOptState n _ \<Rightarrow> info(''ignored_grad_count'' \<mapsto> real_of_int n)
                                | OtherOptState _ \<Rightarrow> info)
                    in Inr ((new_params, new_opt_state), (info, log_w_adjust, log_q)))"

text \<open>Two carries of the update scan have the same structure when their optimizer states are of the same class.\<close>

definition same_carry :: "'p \<times> 'o opt_state \<Rightarrow> 'p \<times> 'o opt_state \<Rightarrow> bool" where
  "same_carry c c' = (is_IgnoreNanOptState (snd c) = is_IgnoreNanOptState (snd c'))"

text \<open>
  The scan of \<^verbatim>\<open>step\<close> over the sampled batches, \<^verbatim>\<open>length=n_updates_per_smc_forward_pass\<close>:
  a leading axis of another length is a \<open>ValueError\<close>.
\<close>

definition gradient_updates ::
  "('p, 'k, 'o, 's, 'b, 'g, 'u) fab \<Rightarrow> 'p \<times> 'o opt_state \<Rightarrow> real list list list \<Rightarrow> real list list
     \<Rightarrow> error + (('p \<times> 'o opt_state) \<times> (info \<times> real list \<times> real list) list)" where
  "gradient_updates env carry x_buffer log_q_old_buffer =
     (if int (length x_buffer) \<noteq> n_updates_per_smc_forward_pass env
         \<or> int (length log_q_old_buffer) \<noteq> n_updates_per_smc_forward_pass env
      then Inl ValueError
      else lax_scan (one_gradient_update env) same_carry carry (zip x_buffer log_q_old_buffer))"

text \<open>
  The loop \<^verbatim>\<open>for i in range(n): info.update(jax.tree_map(lambda x: x[i], infos))\<close>.
  The stacked \<open>infos\<close> is the list of the updates' records, \<open>infos ! i\<close> its slice \<open>i\<close>;
  \<open>m ++ m'\<close> is \<^verbatim>\<open>m.update(m')\<close>.
\<close>

definition merge_infos :: "int \<Rightarrow> info list \<Rightarrow> info \<Rightarrow> info" where
  "merge_infos n infos info = foldl (\<lambda>acc i. acc ++ (infos ! i)) info [0..<nat n]"

text \<open>
  \<^verbatim>\<open>step\<close>: one iteration of the FAB algorithm, the body of the decorated function. The
  decorator \<^verbatim>\<open>chex.assert_max_traces(4)\<close> is \<open>step_traced\<close> below.
\<close>

definition step ::
  "('p, 'k, 'o, 's, 'b, 'g, 'u) fab \<Rightarrow> ('p, 'k, 'o, 's, 'b) TrainStateWithBuffer
     \<Rightarrow> error + (('p, 'k, 'o, 's, 'b) TrainStateWithBuffer \<times> info)" where
  "step env state =
     (let info = Map.empty in
      case random_split env (key state) 2 of
        [key1, subkey] \<Rightarrow>
          let (x_buffer, log_q_old_buffer, indices) =
                buffer_sample_n_batches env subkey (buffer_state state) (batch_size env)
                  (n_updates_per_smc_forward_pass env)
          in (case gradient_updates env (params state, opt_state state) x_buffer log_q_old_buffer of
                Inl e \<Rightarrow> Inl e
              | Inr ((new_flow_params, new_opt_state), ys) \<Rightarrow>
                  let infos = map fst ys;
                      log_w_adjust = map (fst \<circ> snd) ys;
                      log_q_old = map (snd \<circ> snd) ys;
                      buffer_st = buffer_adjust env (concat log_q_old) (concat log_w_adjust)
                                    (concat indices) (buffer_state state);
                      info = merge_infos (n_updates_per_smc_forward_pass env) infos info
                  in (case random_split env key1 2 of
                        [key2, subkey2] \<Rightarrow>
                          let (sample_flow, x_smc, log_w, log_q, smc_st, smc_info) =
                                smc_forward env (params state) (smc_state state) subkey2;
                              info = info ++ smc_info;
                              buffer_st = buffer_add env x_smc log_w log_q buffer_st;
                              new_state = \<lparr>params = new_flow_params, key = key2,
                                           opt_state = new_opt_state, smc_state = smc_st,
                                           buffer_state = buffer_st\<rparr>
                          in Inr (new_state, info)
                      | _ \<Rightarrow> Inl ValueError))
      | _ \<Rightarrow> Inl ValueError)"




text \<open>
  Modelled from the spec: \<^verbatim>\<open>buffer.init\<close> of the prioritised buffer is not among the
  sources. It "fails if the number of provided samples is less than the configured
  minimum fill length"; otherwise it gives the seeded buffer state.
\<close>

definition buffer_init ::
  "('p, 'k, 'o, 's, 'b, 'g, 'u) fab \<Rightarrow> real list list \<Rightarrow> real list \<Rightarrow> real list \<Rightarrow> error + 'b" where
  "buffer_init env x log_w log_q_old =
     (if int (length x) < min_lengtht_to_sample env then Inl BufferUnderfull
      else Inr (buffer_init_state env x log_w log_q_old))"

text \<open>
  \<^verbatim>\<open>body_fn\<close> of \<^verbatim>\<open>init\<close>: one SMC forward pass, with the three \<^verbatim>\<open>chex.assert_shape\<close>
  checks on its output.
\<close>

definition body_fn ::
  "('p, 'k, 'o, 's, 'b, 'g, 'u) fab \<Rightarrow> 'p \<Rightarrow> 's \<Rightarrow> 'k
     \<Rightarrow> error + ('s \<times> (real list list \<times> real list \<times> real list))" where
  "body_fn env flow_params carry xs =
     (let smc_st = carry;
          key1 = xs;
          (sample_flow, x_smc, log_w, log_q, smc_st, smc_info) = smc_forward env flow_params smc_st key1
      in if int (length x_smc) \<noteq> batch_size env
            \<or> \<not> list_all (\<lambda>row. int (length row) = flat_event_shape env) x_smc
         then Inl AssertionError
         else if int (length log_w) \<noteq> batch_size env then Inl AssertionError
         else if int (length log_q) \<noteq> batch_size env then Inl AssertionError
         else Inr (smc_st, (x_smc, log_w, log_q)))"

text \<open>
  \<^verbatim>\<open>n_forward_pass = (buffer.min_lengtht_to_sample // batch_size) + 1\<close>, on Python integers:
  \<open>div\<close> on \<open>int\<close> rounds down as \<^verbatim>\<open>//\<close> does, and a zero divisor raises.
\<close>

definition n_forward_pass :: "('p, 'k, 'o, 's, 'b, 'g, 'u) fab \<Rightarrow> error + int" where
  "n_forward_pass env =
     (if batch_size env = 0 then Inl ZeroDivisionError
      else Inr (min_lengtht_to_sample env div batch_size env + 1))"

text \<open>
  \<^verbatim>\<open>init\<close>: the flow, optimizer and SMC states, then \<open>n_forward_pass\<close> SMC passes whose
  samples seed the buffer. \<^verbatim>\<open>jax.random.split\<close> refuses a negative number of keys with a
  \<open>TypeError\<close>; the
  reshape to \<^verbatim>\<open>(n_forward_pass*batch_size, flat_event_shape)\<close> refuses another number of rows.
\<close>

definition init ::
  "('p, 'k, 'o, 's, 'b, 'g, 'u) fab \<Rightarrow> 'k \<Rightarrow> error + ('p, 'k, 'o, 's, 'b) TrainStateWithBuffer" where
  "init env key0 =
     (case random_split env key0 4 of
        [key1, key2, key3, key4] \<Rightarrow>
          let flow_params = flow_init env key1;
              opt_st = optimizer_init env flow_params;
              smc_st = smc_init env key2
          in (case n_forward_pass env of
                Inl e \<Rightarrow> Inl e
              | Inr n \<Rightarrow>
                  if n < 0 then Inl TypeError
                  else (case lax_scan (body_fn env flow_params) (\<lambda>c c'. True) smc_st
                               (random_split env key3 (nat n)) of
                          Inl e \<Rightarrow> Inl e
                        | Inr (smc_st, ys) \<Rightarrow>
                            let x = concat (map fst ys);
                                log_w = concat (map (fst \<circ> snd) ys);
                                log_q = concat (map (snd \<circ> snd) ys)
                            in if int (length x) \<noteq> n * batch_size env then Inl TypeError
                               else (case buffer_init env x log_w log_q of
                                       Inl e \<Rightarrow> Inl e
                                     | Inr buffer_st \<Rightarrow>
                                         Inr \<lparr>params = flow_params, key = key4, opt_state = opt_st,
                                              smc_state = smc_st, buffer_state = buffer_st\<rparr>)))
      | _ \<Rightarrow> Inl ValueError)"

section \<open>The optimizer of the training configuration (examples/create_train_config.py)\<close>












section \<open>The effective sample size of the evaluation (utils/train_and_eval.py)\<close>

text \<open>
  \<^verbatim>\<open>jax.nn.softmax\<close> of a rank-1 array: the entries are shifted by the maximum before the
  exponential.
\<close>

definition softmax :: "real list \<Rightarrow> real list" where
  "softmax xs =
     (let unnormalized = map (\<lambda>v. exp (v - Max (set xs))) xs
      in map (\<lambda>u. u / sum_list unnormalized) unnormalized)"

text \<open>
  The end of \<^verbatim>\<open>eval_fn\<close>, from \<^verbatim>\<open>if target_log_prob is not None\<close>: the importance
  log-weights of the flow samples, the ESS and the KL estimate are added to \<open>info\<close>.
  \<open>aug_log_prob\<close> is \<^verbatim>\<open>get_augmented_log_prob\<close>; the sample arrays are opaque.
\<close>

definition eval_fn_target ::
  "('a \<Rightarrow> real list) option \<Rightarrow> ('a \<Rightarrow> real list) \<Rightarrow> 'a \<Rightarrow> 'a \<Rightarrow> 'a \<Rightarrow> real list \<Rightarrow> info
     \<Rightarrow> error + info" where
  "eval_fn_target target_log_prob aug_log_prob x x_flow_original x_flow_aug log_prob_flow info =
     (case target_log_prob of
        None \<Rightarrow> Inr info
      | Some target \<Rightarrow>
          (case broadcast2 (+) (target x_flow_original) (aug_log_prob x_flow_aug) of
             Inl e \<Rightarrow> Inl e
           | Inr s \<Rightarrow>
               (case broadcast2 (-) s log_prob_flow of
                  Inl e \<Rightarrow> Inl e
                | Inr log_w \<Rightarrow>
                    let ess = 1 / sum_list (map (\<lambda>w. w ^ 2) (softmax log_w)) / real (length log_w)
                    in (case info ''eval_log_lik'' of
                          None \<Rightarrow> Inl KeyError
                        | Some eval_log_lik \<Rightarrow>
                            Inr (info ++ [''eval_kl'' \<mapsto> mean (target x) - eval_log_lik,
                                          ''ess'' \<mapsto> ess])))))"

section \<open>The double-well target (target/double_well.py)\<close>

text \<open>The rows of a rank-2 array of shape \<open>[n, d]\<close>.\<close>

definition rows :: "ndarray \<Rightarrow> real list list" where
  "rows x = map (\<lambda>i. take (shape x ! 1) (drop (i * (shape x ! 1)) (data x))) [0..<shape x ! 0]"

text \<open>
  \<^verbatim>\<open>get_pairwise_distances\<close>: entry \<open>(i, j)\<close> is the Euclidean norm of \<open>x[j] - x[i]\<close>.
\<close>

definition get_pairwise_distances :: "ndarray \<Rightarrow> error + real list list" where
  "get_pairwise_distances x =
     (if ndim x \<noteq> 2 then Inl AssertionError
      else Inr (map (\<lambda>xi. map (\<lambda>xj. sqrt (sum_list (map2 (\<lambda>u v. (u - v) ^ 2) xj xi))) (rows x))
                  (rows x)))"

text \<open>\<^verbatim>\<open>energy\<close>, and \<^verbatim>\<open>energy(x)\<close> with the default hyper-parameters.\<close>

definition energy :: "ndarray \<Rightarrow> real \<Rightarrow> real \<Rightarrow> real \<Rightarrow> real \<Rightarrow> real \<Rightarrow> error + real" where
  "energy x a b c d0 tau =
     (case get_pairwise_distances x of
        Inl e \<Rightarrow> Inl e
      | Inr differences \<Rightarrow>
          let diff_minus_d0 = map (map (\<lambda>v. v - d0)) differences
          in Inr (sum_list (map (\<lambda>row. sum_list (map (\<lambda>v. a * v + b * v ^ 2 + c * v ^ 4) row))
                              diff_minus_d0) / tau / 2))"

definition energy_default :: "ndarray \<Rightarrow> error + real" where
  "energy_default x = energy x 0 (- 4) (9 / 10) 4 1"

text \<open>The slices of an array along its first axis, over which \<^verbatim>\<open>jax.vmap\<close> maps.\<close>

definition unstack :: "ndarray \<Rightarrow> ndarray list" where
  "unstack x =
     (let sz = prod_list (tl (shape x))
      in map (\<lambda>i. \<lparr>shape = tl (shape x), data = take sz (drop (i * sz) (data x))\<rparr>)
           [0..<hd (shape x)])"

text \<open>\<^verbatim>\<open>jax.vmap(f)(x)\<close>: \<open>f\<close> on every slice; an exception of \<open>f\<close> is one of the whole.\<close>

fun vmap :: "(ndarray \<Rightarrow> error + real) \<Rightarrow> ndarray list \<Rightarrow> error + real list" where
  "vmap f [] = Inr []"
| "vmap f (s # ss) =
     (case f s of
        Inl e \<Rightarrow> Inl e
      | Inr v \<Rightarrow> (case vmap f ss of Inl e \<Rightarrow> Inl e | Inr vs \<Rightarrow> Inr (v # vs)))"

text \<open>The value of \<^verbatim>\<open>log_prob_fn\<close> is a scalar or a rank-1 array.\<close>

datatype jax_value = Scalar real | Vector "real list"

text \<open>\<^verbatim>\<open>log_prob_fn\<close>.\<close>

definition log_prob_fn :: "ndarray \<Rightarrow> error + jax_value" where
  "log_prob_fn x =
     (if length (shape x) = 2 then
        (case energy_default x of Inl e \<Rightarrow> Inl e | Inr v \<Rightarrow> Inr (Scalar (- v)))
      else if length (shape x) = 3 then
        (case vmap energy_default (unstack x) of
           Inl e \<Rightarrow> Inl e
         | Inr vs \<Rightarrow> Inr (Vector (map uminus vs)))
      else Inl PyException)"

section \<open>A small instance\<close>

text \<open>
  A concrete choice of the collaborators, on which the functions above can be run: keys
  are numbers, the flow has one real parameter \<open>p\<close> and gives \<open>p + v\<close> as the
  log-density of the sample \<open>[v]\<close>, the optimizer subtracts the gradient, the buffer is
  three parallel lists (samples, log-weights, log-densities) read in consecutive blocks,
  and an SMC pass at parameter \<open>p\<close> gives the two samples \<open>[p + 5]\<close> and \<open>[p + 6]\<close>.
\<close>

definition toy_env ::
  "(real, nat, unit, nat, real list list \<times> real list \<times> real list, real, real) fab" where
  "toy_env = \<lparr>
     batch_size = 2,
     n_updates_per_smc_forward_pass = 2,
     alpha = 2,
     w_adjust_clip = 10,
     flat_event_shape = 1,
     min_lengtht_to_sample = 3,
     random_split = (\<lambda>k num. map (\<lambda>i. 10 * k + i + 1) [0..<num]),
     flow_init = (\<lambda>k. 0),
     flat_log_prob_components =
       (\<lambda>p. (\<lambda>xs. \<lparr>shape = [length xs, 1, 1, 1], data = concat xs\<rparr>,
             \<lambda>q y. map (\<lambda>v. q + v) (data y))),
     loss_grad = (\<lambda>f p x lq. 1),
     optimizer_init = (\<lambda>p. IgnoreNanOptState 0 ()),
     optimizer_update = (\<lambda>g s p. (- g, s)),
     apply_updates = (\<lambda>p u. p + u),
     global_norm = (\<lambda>g. \<bar>g\<bar>),
     ravel_pytree = (\<lambda>g. [g]),
     smc_init = (\<lambda>k. 0),
     smc_forward =
       (\<lambda>p s k. ([[p], [p]], [[p + 5], [p + 6]], [0, 0], [p, p], Suc s, [''ess'' \<mapsto> 1])),
     buffer_init_state = (\<lambda>x lw lq. (x, lw, lq)),
     buffer_add = (\<lambda>x lw lq (bx, blw, blq). (bx @ x, blw @ lw, blq @ lq)),
     buffer_adjust = (\<lambda>lq adj idx (bx, blw, blq).
        (bx, fold (\<lambda>(i, a) ws. ws[i := ws ! i + a]) (zip idx adj) blw,
             fold (\<lambda>(i, q) qs. qs[i := q]) (zip idx lq) blq)),
     buffer_sample_n_batches = (\<lambda>k (bx, blw, blq) bs n.
        (map (\<lambda>j. take (nat bs) (drop (j * nat bs) bx)) [0..<nat n],
         map (\<lambda>j. take (nat bs) (drop (j * nat bs) blq)) [0..<nat n],
         map (\<lambda>j. [j * nat bs ..< j * nat bs + nat bs]) [0..<nat n]))
   \<rparr>"

definition toy_state ::
  "(real, nat, unit, nat, real list list \<times> real list \<times> real list) TrainStateWithBuffer" where
  "toy_state = \<lparr>params = 0, key = 7, opt_state = IgnoreNanOptState 3 (), smc_state = 0,
     buffer_state = ([[0], [1], [2], [3]], [0, 0, 0, 0], [0, 1, 2, 3])\<rparr>"

text \<open>The diagnostics of the two gradient updates of one step from \<open>toy_state\<close>.\<close>

definition toy_infos :: "info list" where
  "toy_infos =
     [[''loss'' \<mapsto> - (1 / 2), ''log10_grad_norm'' \<mapsto> 0, ''log10_max_param_grad'' \<mapsto> 0,
       ''ignored_grad_count'' \<mapsto> 3],
      [''loss'' \<mapsto> - (3 * min (exp 1) 10 / 2), ''log10_grad_norm'' \<mapsto> 0,
       ''log10_max_param_grad'' \<mapsto> 0, ''ignored_grad_count'' \<mapsto> 3]]"







section \<open>Properties\<close>

lemma sum_list_nth_sum: "sum_list (xs :: real list) = (\<Sum>i<length xs. xs ! i)"
  by (simp add: sum_list_sum_nth lessThan_atLeast0)

lemma map2_as_upt:
  "length xs = length ys \<Longrightarrow> map2 f xs ys = map (\<lambda>i. f (xs ! i) (ys ! i)) [0..<length xs]"
  by (rule nth_equalityI) simp_all

text \<open>
  C1. For a non-empty rank-4 batch \<open>x\<close> with one stored \<open>log_q_old\<close> per sample, the loss is
  minus the mean over the batch of \<open>min (exp ((1 - alpha) * (log_q i - log_q_old i))) w_clip * log_q i\<close>,
  where \<open>log_q\<close> is the flow log-density of \<open>x\<close> under the current parameters, and the
  function returns with it, per sample, the log-weight adjustment
  \<open>(1 - alpha) * (log_q i - log_q_old i)\<close> and \<open>log_q\<close> itself.
\<close>

theorem fab_loss_buffer_samples_formula:
  assumes "ndim x = 4"
    and "length log_q_old = length (log_q_fn_apply p x)"
    and "log_q_old \<noteq> []"
  shows "fab_loss_buffer_samples p x log_q_old a log_q_fn_apply w_clip =
    Inr (- ((\<Sum>i<length log_q_old.
              min (exp ((1 - a) * (log_q_fn_apply p x ! i - log_q_old ! i))) w_clip
                * log_q_fn_apply p x ! i) / real (length log_q_old)),
         (map (\<lambda>i. (1 - a) * (log_q_fn_apply p x ! i - log_q_old ! i))
            [0..<length log_q_old],
          log_q_fn_apply p x))"
proof -
  let ?lq = "log_q_fn_apply p x"
  let ?n = "length log_q_old"
  let ?adj = "map (\<lambda>i. (1 - a) * (?lq ! i - log_q_old ! i)) [0..<?n]"
  have sub: "broadcast2 (-) ?lq log_q_old = Inr (map (\<lambda>i. ?lq ! i - log_q_old ! i) [0..<?n])"
    using assms(2) by (simp add: broadcast2_def map2_as_upt)
  have adj: "map (\<lambda>v. (1 - a) * v) (map (\<lambda>i. ?lq ! i - log_q_old ! i) [0..<?n]) = ?adj"
    by simp
  let ?w = "clip_a_max (map exp ?adj) w_clip"
  have len_w: "length ?w = length ?lq"
    using assms(2) by (simp add: clip_a_max_def)
  have prod: "map2 (*) ?w ?lq =
      map (\<lambda>i. min (exp ((1 - a) * (?lq ! i - log_q_old ! i))) w_clip * ?lq ! i) [0..<?n]"
    using assms(2) by (intro nth_equalityI) (simp_all add: clip_a_max_def)
  have m: "mean (map2 (*) ?w ?lq) =
      (\<Sum>i<?n. min (exp ((1 - a) * (?lq ! i - log_q_old ! i))) w_clip * ?lq ! i) / real ?n"
    unfolding prod mean_def by (simp add: sum_list_nth_sum)
  have "fab_loss_buffer_samples p x log_q_old a log_q_fn_apply w_clip =
      Inr (- mean (map2 (*) ?w ?lq), (?adj, ?lq))"
    unfolding fab_loss_buffer_samples_def Let_def sub
    using assms(1,2) by (simp add: comp_def)
  then show ?thesis
    by (simp only: m)
qed

theorem fab_loss_buffer_samples_formula_witness:
  "ndim \<lparr>shape = [2, 1, 1, 1], data = [0, 0]\<rparr> = 4
   \<and> [1, 2 :: real] \<noteq> []
   \<and> length [1, 2 :: real] = length ((\<lambda>(p :: unit) (y :: ndarray). [1, 2 :: real]) () \<lparr>shape = [2, 1, 1, 1], data = [0, 0]\<rparr>)
   \<and> fab_loss_buffer_samples () \<lparr>shape = [2, 1, 1, 1], data = [0, 0]\<rparr> [1, 2] 2 (\<lambda>p y. [1, 2]) 10
       = Inr (- (3 / 2), ([0, 0], [1, 2]))"
proof -
  have r: "ndim \<lparr>shape = [2, 1, 1, 1], data = [0, 0]\<rparr> = 4"
    by (simp add: ndim_def)
  have two: "{..<2::nat} = {0, 1}" by auto
  show ?thesis
    using fab_loss_buffer_samples_formula
      [of "\<lparr>shape = [2, 1, 1, 1], data = [0, 0]\<rparr>" "[1, 2]" "\<lambda>p y. [1, 2]" "()" 2 10] r
    by (simp add: two upt_rec numeral_2_eq_2)
qed

subsection \<open>The scan\<close>

lemma lax_scan_length:
  "lax_scan f same c xs = Inr (c', ys) \<Longrightarrow> length ys = length xs"
  by (induction xs arbitrary: c ys) (auto split: sum.splits prod.splits if_splits)

lemma lax_scan_prefix:
  "lax_scan f same c xs = Inr (cN, ys) \<Longrightarrow> i < length xs \<Longrightarrow>
   \<exists>ci ci'. lax_scan f same c (take i xs) = Inr (ci, take i ys)
     \<and> f ci (xs ! i) = Inr (ci', ys ! i)
     \<and> same ci ci'
     \<and> lax_scan f same c (take (Suc i) xs) = Inr (ci', take (Suc i) ys)"
proof (induction xs arbitrary: c ys i)
  case Nil
  then show ?case by simp
next
  case (Cons x xs)
  from Cons.prems(1) obtain c1 y ys' where
    f: "f c x = Inr (c1, y)" and s: "same c c1"
    and rest: "lax_scan f same c1 xs = Inr (cN, ys')" and ys: "ys = y # ys'"
    by (auto split: sum.splits prod.splits if_splits)
  show ?case
  proof (cases i)
    case 0
    then show ?thesis using f s ys by simp
  next
    case (Suc j)
    with Cons.prems(2) have "j < length xs" by simp
    from Cons.IH [OF rest this] obtain ci ci' where
      "lax_scan f same c1 (take j xs) = Inr (ci, take j ys')"
      "f ci (xs ! j) = Inr (ci', ys' ! j)" "same ci ci'"
      "lax_scan f same c1 (take (Suc j) xs) = Inr (ci', take (Suc j) ys')"
      by blast
    then show ?thesis using f s ys Suc by simp
  qed
qed

subsection \<open>One step, taken apart\<close>

lemma step_InrE:
  assumes "step env st = Inr (st', dg)"
  obtains key1 subkey xb lqb idx pN oN ys key2 subkey2 sample_flow x_smc log_w log_q smc_st smc_info
  where "random_split env (key st) 2 = [key1, subkey]"
    and "buffer_sample_n_batches env subkey (buffer_state st) (batch_size env)
           (n_updates_per_smc_forward_pass env) = (xb, lqb, idx)"
    and "gradient_updates env (params st, opt_state st) xb lqb = Inr ((pN, oN), ys)"
    and "random_split env key1 2 = [key2, subkey2]"
    and "smc_forward env (params st) (smc_state st) subkey2 =
           (sample_flow, x_smc, log_w, log_q, smc_st, smc_info)"
    and "st' = \<lparr>params = pN, key = key2, opt_state = oN, smc_state = smc_st,
               buffer_state = buffer_add env x_smc log_w log_q
                 (buffer_adjust env (concat (map (snd \<circ> snd) ys)) (concat (map (fst \<circ> snd) ys))
                    (concat idx) (buffer_state st))\<rparr>"
    and "dg = merge_infos (n_updates_per_smc_forward_pass env) (map fst ys) Map.empty ++ smc_info"
  using assms unfolding step_def Let_def
  by (auto split: list.splits sum.splits prod.splits)

subsection \<open>The small instance, evaluated\<close>

lemma upt2: "[0..<2] = [0, 1]"
  by (simp add: upt_rec)

lemma toy_split: "random_split toy_env k 2 = [10 * k + 1, 10 * k + 2]"
  by (simp add: toy_env_def upt2)

lemma toy_sizes: "batch_size toy_env = 2" "n_updates_per_smc_forward_pass toy_env = 2"
  by (simp_all add: toy_env_def)

lemma toy_state_fields:
  "key toy_state = 7" "params toy_state = 0" "opt_state toy_state = IgnoreNanOptState 3 ()"
  "smc_state toy_state = 0"
  "buffer_state toy_state = ([[0], [1], [2], [3]], [0, 0, 0, 0], [0, 1, 2, 3])"
  by (simp_all add: toy_state_def)

lemma toy_sample:
  "buffer_sample_n_batches toy_env k ([[0], [1], [2], [3]], [0, 0, 0, 0], [0, 1, 2, 3]) 2 2 =
     ([[[0], [1]], [[2], [3]]], [[0, 1], [2, 3]], [[0, 1], [2, 3]])"
  by (simp add: toy_env_def upt2 upt_rec)

lemma toy_gradient_updates:
  "gradient_updates toy_env (0, IgnoreNanOptState 3 ()) [[[0], [1]], [[2], [3]]] [[0, 1], [2, 3]]
     = Inr ((- 2, IgnoreNanOptState 3 ()),
            [(toy_infos ! 0, [0, 0], [0, 1]), (toy_infos ! 1, [1, 1], [1, 2])])"
  by (simp add: gradient_updates_def one_gradient_update_def fab_loss_buffer_samples_def
      broadcast2_def clip_a_max_def mean_def jnp_max_def same_carry_def ndim_def toy_env_def
      toy_infos_def Let_def)

lemma toy_step:
  "step toy_env toy_state =
     Inr (\<lparr>params = - 2, key = 711, opt_state = IgnoreNanOptState 3 (), smc_state = Suc 0,
           buffer_state = ([[0], [1], [2], [3], [5], [6]], [0, 0, 1, 1, 0, 0], [0, 1, 1, 2, 0, 0])\<rparr>,
          (toy_infos ! 1) ++ [''ess'' \<mapsto> 1])"
  unfolding step_def Let_def
  apply (simp add: toy_state_fields toy_split toy_sizes toy_sample toy_gradient_updates)
  apply (simp add: toy_env_def merge_infos_def toy_infos_def upt2)
  done

subsection \<open>The claims about the training loop\<close>

text \<open>
  C2. Whenever a step returns, its call of \<open>sample_n_batches\<close> read the buffer state of
  the incoming training state, \<open>adjust\<close> was applied to that same incoming buffer state
  with the indices that this call of \<open>sample_n_batches\<close> returned (flattened), and \<open>add\<close>
  was applied to the result of \<open>adjust\<close>: the new buffer state is \<open>add\<close> of \<open>adjust\<close> of
  the incoming one, and the samples of this step's SMC pass were in no buffer state that
  \<open>sample_n_batches\<close> saw.
\<close>

theorem step_buffer_order:
  assumes "step env st = Inr (st', dg)"
  shows "\<exists>key1 subkey x_buffer log_q_old_buffer indices cN ys key2 subkey2 sample_flow x_smc log_w
            log_q smc_st smc_info.
      random_split env (key st) 2 = [key1, subkey]
    \<and> buffer_sample_n_batches env subkey (buffer_state st) (batch_size env)
          (n_updates_per_smc_forward_pass env) = (x_buffer, log_q_old_buffer, indices)
    \<and> gradient_updates env (params st, opt_state st) x_buffer log_q_old_buffer = Inr (cN, ys)
    \<and> random_split env key1 2 = [key2, subkey2]
    \<and> smc_forward env (params st) (smc_state st) subkey2 =
          (sample_flow, x_smc, log_w, log_q, smc_st, smc_info)
    \<and> buffer_state st' =
          buffer_add env x_smc log_w log_q
            (buffer_adjust env (concat (map (snd \<circ> snd) ys)) (concat (map (fst \<circ> snd) ys))
               (concat indices) (buffer_state st))"
proof -
  from assms obtain key1 subkey xb lqb idx pN oN ys key2 subkey2 sample_flow x_smc log_w log_q
      smc_st smc_info
    where a: "random_split env (key st) 2 = [key1, subkey]"
      and b: "buffer_sample_n_batches env subkey (buffer_state st) (batch_size env)
             (n_updates_per_smc_forward_pass env) = (xb, lqb, idx)"
      and c: "gradient_updates env (params st, opt_state st) xb lqb = Inr ((pN, oN), ys)"
      and d: "random_split env key1 2 = [key2, subkey2]"
      and e: "smc_forward env (params st) (smc_state st) subkey2 =
             (sample_flow, x_smc, log_w, log_q, smc_st, smc_info)"
      and f: "st' = \<lparr>params = pN, key = key2, opt_state = oN, smc_state = smc_st,
                 buffer_state = buffer_add env x_smc log_w log_q
                   (buffer_adjust env (concat (map (snd \<circ> snd) ys))
                      (concat (map (fst \<circ> snd) ys)) (concat idx) (buffer_state st))\<rparr>"
    by (rule step_InrE)
  from f have g: "buffer_state st' = buffer_add env x_smc log_w log_q
      (buffer_adjust env (concat (map (snd \<circ> snd) ys)) (concat (map (fst \<circ> snd) ys))
         (concat idx) (buffer_state st))"
    by simp
  from a b c d e g show ?thesis by blast
qed

theorem step_buffer_order_witness:
  "step toy_env toy_state =
     Inr (\<lparr>params = - 2, key = 711, opt_state = IgnoreNanOptState 3 (), smc_state = Suc 0,
           buffer_state = ([[0], [1], [2], [3], [5], [6]], [0, 0, 1, 1, 0, 0], [0, 1, 1, 2, 0, 0])\<rparr>,
          (toy_infos ! 1) ++ [''ess'' \<mapsto> 1])
   \<and> (\<exists>subkey x_buffer log_q_old_buffer indices cN ys subkey2 x_smc log_w log_q.
        buffer_sample_n_batches toy_env subkey (buffer_state toy_state) 2 2
          = (x_buffer, log_q_old_buffer, indices)
      \<and> gradient_updates toy_env (0, IgnoreNanOptState 3 ()) x_buffer log_q_old_buffer = Inr (cN, ys)
      \<and> ([[0], [1], [2], [3], [5], [6]], [0, 0, 1, 1, 0, 0], [0, 1, 1, 2, 0, 0]) =
          buffer_add toy_env x_smc log_w log_q
            (buffer_adjust toy_env (concat (map (snd \<circ> snd) ys)) (concat (map (fst \<circ> snd) ys))
               (concat indices) (buffer_state toy_state)))"
proof -
  from step_buffer_order [OF toy_step] show ?thesis
    unfolding toy_sizes toy_state_fields(2,3)
    by (intro conjI toy_step) (simp, blast)
qed




subsection \<open>The initialisation\<close>

lemma body_fn_error: "body_fn env p c x = Inl e \<Longrightarrow> e = AssertionError"
  by (auto simp: body_fn_def Let_def split: prod.splits if_splits)

lemma lax_scan_body_fn_error:
  "lax_scan (body_fn env p) same c xs = Inl e \<Longrightarrow> e = AssertionError \<or> e = TypeError"
proof (induction xs arbitrary: c)
  case Nil
  then show ?case by simp
next
  case (Cons x xs)
  then show ?case
    by (auto split: sum.splits prod.splits if_splits dest: body_fn_error)
qed

lemma seed_count_exceeds:
  fixes m b :: int
  assumes "1 \<le> b"
  shows "m < (m div b + 1) * b"
proof -
  have "m = (m div b) * b + m mod b" by simp
  moreover have "m mod b < b" using assms by simp
  ultimately have "m < (m div b) * b + b" by linarith
  then show ?thesis by (simp add: algebra_simps)
qed

text \<open>
  C5. For every batch size of at least 1 and every minimum fill length, \<open>n_forward_pass\<close>
  is defined and \<open>n_forward_pass * batch_size\<close> is strictly greater than the minimum fill
  length. Whenever \<open>init\<close> returns, the samples it gave to the buffer are those of its
  \<open>n_forward_pass\<close> SMC passes, they number exactly \<open>n_forward_pass * batch_size\<close>, more than
  the minimum fill length, and the buffer state is the one seeded with them; so \<open>init\<close>
  never fails with the buffer's underfull error.
\<close>

theorem init_seeds_more_than_min_length:
  assumes "1 \<le> batch_size env"
  shows "\<exists>n. n_forward_pass env = Inr n
     \<and> min_lengtht_to_sample env < n * batch_size env
     \<and> init env k \<noteq> Inl BufferUnderfull
     \<and> (\<forall>st. init env k = Inr st \<longrightarrow>
          (\<exists>key1 key2 key3 key4 smc_st ys.
              random_split env k 4 = [key1, key2, key3, key4]
            \<and> lax_scan (body_fn env (flow_init env key1)) (\<lambda>c c'. True) (smc_init env key2)
                  (random_split env key3 (nat n)) = Inr (smc_st, ys)
            \<and> int (length (concat (map fst ys))) = n * batch_size env
            \<and> min_lengtht_to_sample env < int (length (concat (map fst ys)))
            \<and> buffer_init env (concat (map fst ys)) (concat (map (fst \<circ> snd) ys))
                  (concat (map (snd \<circ> snd) ys)) = Inr (buffer_state st)
            \<and> buffer_state st =
                  buffer_init_state env (concat (map fst ys)) (concat (map (fst \<circ> snd) ys))
                    (concat (map (snd \<circ> snd) ys))))"
proof -
  let ?n = "min_lengtht_to_sample env div batch_size env + 1"
  have n: "n_forward_pass env = Inr ?n"
    using assms by (simp add: n_forward_pass_def)
  have gt: "min_lengtht_to_sample env < ?n * batch_size env"
    using seed_count_exceeds [OF assms] .
  have ne: "init env k \<noteq> Inl BufferUnderfull"
    unfolding init_def Let_def n using gt
    by (auto simp: buffer_init_def split: list.splits sum.splits prod.splits if_splits
        dest: lax_scan_body_fn_error)
  have seeded: "\<exists>key1 key2 key3 key4 smc_st ys.
              random_split env k 4 = [key1, key2, key3, key4]
            \<and> lax_scan (body_fn env (flow_init env key1)) (\<lambda>c c'. True) (smc_init env key2)
                  (random_split env key3 (nat ?n)) = Inr (smc_st, ys)
            \<and> int (length (concat (map fst ys))) = ?n * batch_size env
            \<and> min_lengtht_to_sample env < int (length (concat (map fst ys)))
            \<and> buffer_init env (concat (map fst ys)) (concat (map (fst \<circ> snd) ys))
                  (concat (map (snd \<circ> snd) ys)) = Inr (buffer_state st)
            \<and> buffer_state st =
                  buffer_init_state env (concat (map fst ys)) (concat (map (fst \<circ> snd) ys))
                    (concat (map (snd \<circ> snd) ys))"
    if "init env k = Inr st" for st
  proof -
    from that obtain key1 key2 key3 key4 smc_st ys bst where
      a: "random_split env k 4 = [key1, key2, key3, key4]"
      and b: "lax_scan (body_fn env (flow_init env key1)) (\<lambda>c c'. True) (smc_init env key2)
                  (random_split env key3 (nat ?n)) = Inr (smc_st, ys)"
      and c: "int (length (concat (map fst ys))) = ?n * batch_size env"
      and d: "buffer_init env (concat (map fst ys)) (concat (map (fst \<circ> snd) ys))
                  (concat (map (snd \<circ> snd) ys)) = Inr bst"
      and e: "buffer_state st = bst"
      unfolding init_def Let_def n
      by (auto split: list.splits sum.splits prod.splits if_splits)
    from d have f: "bst = buffer_init_state env (concat (map fst ys)) (concat (map (fst \<circ> snd) ys))
                    (concat (map (snd \<circ> snd) ys))"
      by (auto simp: buffer_init_def split: if_splits)
    from c gt have g: "min_lengtht_to_sample env < int (length (concat (map fst ys)))"
      by simp
    from a b c d e f g show ?thesis by blast
  qed
  from n gt ne seeded show ?thesis by blast
qed

lemma toy_init:
  "init toy_env 0 = Inr \<lparr>params = 0, key = 4, opt_state = IgnoreNanOptState 0 (), smc_state = 2,
        buffer_state = ([[5], [6], [5], [6]], [0, 0, 0, 0], [0, 0, 0, 0])\<rparr>"
  by (simp add: init_def n_forward_pass_def body_fn_def buffer_init_def toy_env_def Let_def
      upt_rec numeral_2_eq_2)

theorem init_seeds_more_than_min_length_witness:
  "1 \<le> batch_size toy_env
   \<and> n_forward_pass toy_env = Inr 2
   \<and> min_lengtht_to_sample toy_env = 3
   \<and> init toy_env 0 = Inr \<lparr>params = 0, key = 4, opt_state = IgnoreNanOptState 0 (), smc_state = 2,
        buffer_state = ([[5], [6], [5], [6]], [0, 0, 0, 0], [0, 0, 0, 0])\<rparr>
   \<and> (\<exists>ys :: (real list list \<times> real list \<times> real list) list.
         int (length (concat (map fst ys))) = 2 * 2
       \<and> ([[5], [6], [5], [6]], [0, 0, 0, 0], [0, 0, 0, 0]) =
            buffer_init_state toy_env (concat (map fst ys)) (concat (map (fst \<circ> snd) ys))
              (concat (map (snd \<circ> snd) ys)))"
proof -
  have b: "1 \<le> batch_size toy_env" "batch_size toy_env = 2" "min_lengtht_to_sample toy_env = 3"
    by (simp_all add: toy_env_def)
  have n: "n_forward_pass toy_env = Inr 2" by (simp add: n_forward_pass_def toy_env_def)
  from init_seeds_more_than_min_length [OF b(1), of 0] n toy_init
  obtain ys :: "(real list list \<times> real list \<times> real list) list" where
    "int (length (concat (map fst ys))) = 2 * batch_size toy_env"
    "([[5], [6], [5], [6]], [0, 0, 0, 0], [0, 0, 0, 0]) =
            buffer_init_state toy_env (concat (map fst ys)) (concat (map (fst \<circ> snd) ys))
              (concat (map (snd \<circ> snd) ys))"
    by auto
  with b n toy_init show ?thesis by auto
qed

subsection \<open>The SMC pass of a step\<close>

text \<open>
  C3. Whenever a step returns, the SMC forward pass whose samples it adds to the buffer,
  and whose SMC state it keeps, was called with the parameters \<open>params st\<close> of the
  incoming state: the parameters from which the step's gradient updates start, not the
  parameters \<open>params st'\<close> that these updates end with.
\<close>

theorem step_smc_uses_pre_step_params:
  assumes "step env st = Inr (st', dg)"
  shows "\<exists>key1 subkey x_buffer log_q_old_buffer indices ys key2 subkey2 sample_flow x_smc log_w
            log_q smc_info.
      random_split env (key st) 2 = [key1, subkey]
    \<and> random_split env key1 2 = [key2, subkey2]
    \<and> smc_forward env (params st) (smc_state st) subkey2 =
          (sample_flow, x_smc, log_w, log_q, smc_state st', smc_info)
    \<and> buffer_sample_n_batches env subkey (buffer_state st) (batch_size env)
          (n_updates_per_smc_forward_pass env) = (x_buffer, log_q_old_buffer, indices)
    \<and> gradient_updates env (params st, opt_state st) x_buffer log_q_old_buffer
          = Inr ((params st', opt_state st'), ys)
    \<and> buffer_state st' =
          buffer_add env x_smc log_w log_q
            (buffer_adjust env (concat (map (snd \<circ> snd) ys)) (concat (map (fst \<circ> snd) ys))
               (concat indices) (buffer_state st))"
proof -
  from assms obtain key1 subkey xb lqb idx pN oN ys key2 subkey2 sample_flow x_smc log_w log_q
      smc_st smc_info
    where a: "random_split env (key st) 2 = [key1, subkey]"
      and b: "buffer_sample_n_batches env subkey (buffer_state st) (batch_size env)
             (n_updates_per_smc_forward_pass env) = (xb, lqb, idx)"
      and c: "gradient_updates env (params st, opt_state st) xb lqb = Inr ((pN, oN), ys)"
      and d: "random_split env key1 2 = [key2, subkey2]"
      and e: "smc_forward env (params st) (smc_state st) subkey2 =
             (sample_flow, x_smc, log_w, log_q, smc_st, smc_info)"
      and f: "st' = \<lparr>params = pN, key = key2, opt_state = oN, smc_state = smc_st,
                 buffer_state = buffer_add env x_smc log_w log_q
                   (buffer_adjust env (concat (map (snd \<circ> snd) ys))
                      (concat (map (fst \<circ> snd) ys)) (concat idx) (buffer_state st))\<rparr>"
    by (rule step_InrE)
  from f have g: "params st' = pN" "opt_state st' = oN" "smc_state st' = smc_st"
    "buffer_state st' = buffer_add env x_smc log_w log_q
      (buffer_adjust env (concat (map (snd \<circ> snd) ys)) (concat (map (fst \<circ> snd) ys))
         (concat idx) (buffer_state st))"
    by simp_all
  from a b c d e show ?thesis unfolding g [symmetric] using g(4) by blast
qed

theorem step_smc_uses_pre_step_params_witness:
  "step toy_env toy_state =
     Inr (\<lparr>params = - 2, key = 711, opt_state = IgnoreNanOptState 3 (), smc_state = Suc 0,
           buffer_state = ([[0], [1], [2], [3], [5], [6]], [0, 0, 1, 1, 0, 0], [0, 1, 1, 2, 0, 0])\<rparr>,
          (toy_infos ! 1) ++ [''ess'' \<mapsto> 1])
   \<and> (\<exists>subkey2 sample_flow smc_info.
         smc_forward toy_env 0 0 subkey2 = (sample_flow, [[5], [6]], [0, 0], [0, 0], Suc 0, smc_info))
   \<and> (\<exists>x_buffer log_q_old_buffer ys.
         gradient_updates toy_env (0, IgnoreNanOptState 3 ()) x_buffer log_q_old_buffer
           = Inr ((- 2, IgnoreNanOptState 3 ()), ys))
   \<and> fst (snd (smc_forward toy_env (- 2) 0 712)) = [[3], [4]]"
proof -
  have new: "fst (snd (smc_forward toy_env (- 2) 0 712)) = [[3], [4]]"
    by (simp add: toy_env_def)
  from step_smc_uses_pre_step_params [OF toy_step]
  obtain subkey2 sample_flow x_smc log_w log_q smc_info x_buffer log_q_old_buffer ys where
    a: "smc_forward toy_env 0 0 subkey2 = (sample_flow, x_smc, log_w, log_q, Suc 0, smc_info)"
    and b: "gradient_updates toy_env (0, IgnoreNanOptState 3 ()) x_buffer log_q_old_buffer
           = Inr ((- 2, IgnoreNanOptState 3 ()), ys)"
    unfolding toy_state_fields by auto
  from a have "x_smc = [[5], [6]]" "log_w = [0, 0]" "log_q = [0, 0]"
    by (auto simp: toy_env_def)
  with a b new toy_step show ?thesis by blast
qed

subsection \<open>The diagnostics of a step\<close>

lemma one_gradient_update_dom:
  assumes "one_gradient_update env (p, s) x = Inr (c', (dg, adj, q))"
  shows "dom dg = {''loss'', ''log10_grad_norm'', ''log10_max_param_grad''}
           \<union> (if is_IgnoreNanOptState s then {''ignored_grad_count''} else {})"
proof -
  from assms obtain loss g mx where
    "dg = (case s of
             IgnoreNanOptState n _ \<Rightarrow>
               [''loss'' \<mapsto> loss, ''log10_grad_norm'' \<mapsto> g, ''log10_max_param_grad'' \<mapsto> mx,
                ''ignored_grad_count'' \<mapsto> real_of_int n]
           | OtherOptState _ \<Rightarrow>
               [''loss'' \<mapsto> loss, ''log10_grad_norm'' \<mapsto> g, ''log10_max_param_grad'' \<mapsto> mx])"
    unfolding one_gradient_update_def Let_def
    by (auto split: sum.splits prod.splits)
  then show ?thesis
    by (cases s) auto
qed

lemma scan_updates_dom:
  assumes "lax_scan (one_gradient_update env) same_carry c xs = Inr (c', ys)"
    and "y \<in> set ys"
  shows "dom (fst y) = {''loss'', ''log10_grad_norm'', ''log10_max_param_grad''}
           \<union> (if is_IgnoreNanOptState (snd c) then {''ignored_grad_count''} else {})"
  using assms
proof (induction xs arbitrary: c ys)
  case Nil
  then show ?case by simp
next
  case (Cons x xs)
  from Cons.prems(1) obtain c1 y1 ys' where
    f: "one_gradient_update env c x = Inr (c1, y1)" and s: "same_carry c c1"
    and rest: "lax_scan (one_gradient_update env) same_carry c1 xs = Inr (c', ys')"
    and ys: "ys = y1 # ys'"
    by (auto split: sum.splits prod.splits if_splits)
  from s have cls: "is_IgnoreNanOptState (snd c1) = is_IgnoreNanOptState (snd c)"
    by (simp add: same_carry_def)
  show ?case
  proof (cases "y = y1")
    case True
    obtain p s0 where c: "c = (p, s0)" by (cases c)
    obtain dg adj q where y1: "y1 = (dg, adj, q)" by (cases y1)
    from one_gradient_update_dom [of env p s0 x c1 dg adj q] f c y1 True
    show ?thesis by simp
  next
    case False
    with Cons.prems(2) ys have "y \<in> set ys'" by simp
    from Cons.IH [OF rest this] cls show ?thesis by simp
  qed
qed

lemma merge_infos_upto:
  assumes "\<And>i. i < length infos \<Longrightarrow> dom (infos ! i) = D"
    and "k < length infos"
  shows "foldl (\<lambda>acc i. acc ++ (infos ! i)) Map.empty [0..<Suc k] = infos ! k"
  using assms(2)
proof (induction k)
  case 0
  then show ?case by simp
next
  case (Suc k)
  then have IH: "foldl (\<lambda>acc i. acc ++ (infos ! i)) Map.empty [0..<Suc k] = infos ! k"
    by simp
  have "dom (infos ! k) = dom (infos ! Suc k)"
    using assms(1) [of k] assms(1) [of "Suc k"] Suc.prems by simp
  then have "(infos ! k) ++ (infos ! Suc k) = infos ! Suc k"
    by (intro ext) (auto simp: map_add_def split: option.splits)
  with IH show ?case by simp
qed

lemma merge_infos_last:
  assumes "\<And>i. i < length infos \<Longrightarrow> dom (infos ! i) = D"
    and "infos \<noteq> []" and "n = int (length infos)"
  shows "merge_infos n infos Map.empty = last infos"
proof -
  obtain k where k: "length infos = Suc k" using assms(2) by (cases infos) auto
  with assms(3) have "nat n = Suc k" by simp
  then have "merge_infos n infos Map.empty = infos ! k"
    using merge_infos_upto [of infos D k] assms(1) k unfolding merge_infos_def by simp
  with k show ?thesis by (simp add: last_conv_nth assms(2))
qed

text \<open>
  C10. When a step with at least one update per SMC pass returns, the per-update entries
  of its diagnostics record are those of the last gradient update only: the merged record
  is the record of the last update (the one that yields the final carry), overwritten by
  the SMC diagnostics. The records of the earlier updates do not occur in it.
\<close>

theorem step_info_is_last_update:
  assumes "step env st = Inr (st', dg)"
    and "0 < n_updates_per_smc_forward_pass env"
  shows "\<exists>key1 subkey x_buffer log_q_old_buffer indices cN ys c_before key2 subkey2 sample_flow
            x_smc log_w log_q smc_st smc_info.
      random_split env (key st) 2 = [key1, subkey]
    \<and> buffer_sample_n_batches env subkey (buffer_state st) (batch_size env)
          (n_updates_per_smc_forward_pass env) = (x_buffer, log_q_old_buffer, indices)
    \<and> gradient_updates env (params st, opt_state st) x_buffer log_q_old_buffer = Inr (cN, ys)
    \<and> int (length ys) = n_updates_per_smc_forward_pass env
    \<and> lax_scan (one_gradient_update env) same_carry (params st, opt_state st)
          (butlast (zip x_buffer log_q_old_buffer)) = Inr (c_before, butlast ys)
    \<and> one_gradient_update env c_before (last x_buffer, last log_q_old_buffer) = Inr (cN, last ys)
    \<and> random_split env key1 2 = [key2, subkey2]
    \<and> smc_forward env (params st) (smc_state st) subkey2 =
          (sample_flow, x_smc, log_w, log_q, smc_st, smc_info)
    \<and> dg = fst (last ys) ++ smc_info"
proof -
  let ?n = "n_updates_per_smc_forward_pass env"
  from assms(1) obtain key1 subkey xb lqb idx pN oN ys key2 subkey2 sample_flow x_smc log_w log_q
      smc_st smc_info
    where a: "random_split env (key st) 2 = [key1, subkey]"
      and b: "buffer_sample_n_batches env subkey (buffer_state st) (batch_size env) ?n
                = (xb, lqb, idx)"
      and c: "gradient_updates env (params st, opt_state st) xb lqb = Inr ((pN, oN), ys)"
      and d: "random_split env key1 2 = [key2, subkey2]"
      and e: "smc_forward env (params st) (smc_state st) subkey2 =
             (sample_flow, x_smc, log_w, log_q, smc_st, smc_info)"
      and g: "dg = merge_infos ?n (map fst ys) Map.empty ++ smc_info"
    by (rule step_InrE)
  let ?xs = "zip xb lqb"
  from c have len: "int (length xb) = ?n" "int (length lqb) = ?n"
    and scan: "lax_scan (one_gradient_update env) same_carry (params st, opt_state st) ?xs
                 = Inr ((pN, oN), ys)"
    by (auto simp: gradient_updates_def split: if_splits)
  have lys: "length ys = length ?xs" using lax_scan_length [OF scan] .
  from len have leq: "length xb = length lqb" by linarith
  from len assms(2) have ne: "xb \<noteq> []" "lqb \<noteq> []" by auto
  with lys leq have nys: "ys \<noteq> []" by auto
  have n: "int (length ys) = ?n" using lys leq len by simp
  obtain k where k: "length ?xs = Suc k" using ne leq by (cases ?xs) auto
  then have kl: "k < length ?xs" by simp
  from lax_scan_prefix [OF scan kl] obtain ci ci' where
    pre: "lax_scan (one_gradient_update env) same_carry (params st, opt_state st) (take k ?xs)
            = Inr (ci, take k ys)"
    and upd: "one_gradient_update env ci (?xs ! k) = Inr (ci', ys ! k)"
    and suc: "lax_scan (one_gradient_update env) same_carry (params st, opt_state st)
                (take (Suc k) ?xs) = Inr (ci', take (Suc k) ys)"
    by blast
  from suc k lys scan have ci': "ci' = (pN, oN)" by simp
  have bl: "take k ?xs = butlast ?xs" "take k ys = butlast ys"
    using k lys by (simp_all add: butlast_conv_take)
  have lastx: "?xs ! k = (last xb, last lqb)"
    using k leq ne by (simp add: last_conv_nth)
  have lasty: "ys ! k = last ys"
    using k lys nys by (simp add: last_conv_nth)
  have doms: "\<And>i. i < length (map fst ys) \<Longrightarrow> dom (map fst ys ! i) =
      {''loss'', ''log10_grad_norm'', ''log10_max_param_grad''}
        \<union> (if is_IgnoreNanOptState (opt_state st) then {''ignored_grad_count''} else {})"
    using scan_updates_dom [OF scan] by simp
  have "merge_infos ?n (map fst ys) Map.empty = last (map fst ys)"
    by (rule merge_infos_last [where D = "{''loss'', ''log10_grad_norm'', ''log10_max_param_grad''}
        \<union> (if is_IgnoreNanOptState (opt_state st) then {''ignored_grad_count''} else {})"])
      (use doms nys n in simp_all)
  then have m: "merge_infos ?n (map fst ys) Map.empty = fst (last ys)"
    using nys by (simp add: last_map)
  from a b c d e n pre upd show ?thesis
    unfolding g m bl lastx lasty ci' by blast
qed

theorem step_info_is_last_update_witness:
  "step toy_env toy_state =
     Inr (\<lparr>params = - 2, key = 711, opt_state = IgnoreNanOptState 3 (), smc_state = Suc 0,
           buffer_state = ([[0], [1], [2], [3], [5], [6]], [0, 0, 1, 1, 0, 0], [0, 1, 1, 2, 0, 0])\<rparr>,
          (toy_infos ! 1) ++ [''ess'' \<mapsto> 1])
   \<and> 0 < n_updates_per_smc_forward_pass toy_env
   \<and> (\<exists>x_buffer log_q_old_buffer cN ys c_before smc_info.
         gradient_updates toy_env (0, IgnoreNanOptState 3 ()) x_buffer log_q_old_buffer = Inr (cN, ys)
       \<and> length ys = 2
       \<and> one_gradient_update toy_env c_before (last x_buffer, last log_q_old_buffer) = Inr (cN, last ys)
       \<and> (toy_infos ! 1) ++ [''ess'' \<mapsto> 1] = fst (last ys) ++ smc_info)
   \<and> ((toy_infos ! 1) ++ [''ess'' \<mapsto> 1]) ''loss'' = Some (- (3 * min (exp 1) 10 / 2))
   \<and> (toy_infos ! 0) ''loss'' = Some (- (1 / 2))"
proof -
  have n: "0 < n_updates_per_smc_forward_pass toy_env"
    by (simp add: toy_sizes)
  have v: "((toy_infos ! 1) ++ [''ess'' \<mapsto> 1]) ''loss'' = Some (- (3 * min (exp 1) 10 / 2))"
    "(toy_infos ! 0) ''loss'' = Some (- (1 / 2))"
    by (simp_all add: toy_infos_def)
  from step_info_is_last_update [OF toy_step n]
  obtain x_buffer log_q_old_buffer cN ys c_before smc_info where
    a: "gradient_updates toy_env (0, IgnoreNanOptState 3 ()) x_buffer log_q_old_buffer = Inr (cN, ys)"
    and b: "int (length ys) = 2"
    and c: "one_gradient_update toy_env c_before (last x_buffer, last log_q_old_buffer)
              = Inr (cN, last ys)"
    and d: "(toy_infos ! 1) ++ [''ess'' \<mapsto> 1] = fst (last ys) ++ smc_info"
    unfolding toy_state_fields toy_sizes by blast
  from b have "length ys = 2" by simp
  with a c d toy_step n v show ?thesis by blast
qed

subsection \<open>NaN gradients\<close>





















subsection \<open>Determinism of the step and the trace counter\<close>




subsection \<open>The effective sample size\<close>

lemma sum_list_map_divide:
  "sum_list (map (\<lambda>v. f v / (c :: real)) xs) = sum_list (map f xs) / c"
  by (induction xs) (simp_all add: add_divide_distrib)

lemma softmax_plain: "softmax xs = map (\<lambda>v. exp v / sum_list (map exp xs)) xs"
proof -
  let ?m = "Max (set xs)"
  have e: "\<And>v. exp (v - ?m) = exp v / exp ?m"
    by (simp add: exp_diff)
  have s: "sum_list (map (\<lambda>v. exp (v - ?m)) xs) = sum_list (map exp xs) / exp ?m"
    unfolding e by (rule sum_list_map_divide)
  show ?thesis
    unfolding softmax_def Let_def s by (simp add: e comp_def)
qed

lemma softmax_uniform:
  assumes "0 < N"
  shows "softmax (replicate N c) = replicate N (1 / real N)"
proof -
  have "sum_list (map exp (replicate N c)) = real N * exp c"
    by (simp add: sum_list_replicate)
  then show ?thesis
    using assms by (simp add: softmax_plain map_replicate_const)
qed

lemma ess_uniform:
  assumes "0 < N"
  shows "1 / sum_list (map (\<lambda>w. w ^ 2) (softmax (replicate N c))) / real N = 1"
proof -
  have "sum_list (map (\<lambda>w. w ^ 2) (replicate N (1 / real N))) = real N * (1 / real N) ^ 2"
    by (simp add: sum_list_replicate)
  also have "\<dots> = 1 / real N"
    using assms by (simp add: power2_eq_square)
  finally show ?thesis
    using assms by (simp add: softmax_uniform)
qed

text \<open>
  C7, as the code has it. For a non-empty set of particles, the \<open>ess\<close> entry that the
  evaluation adds is
  \<open>1 / \<Sum> (normalised weight)\<^sup>2\<close> divided by the number of particles, where the normalised
  weights are the softmax of the importance log-weights \<open>log_w\<close>; for uniform weights over
  any positive number of particles it is 1.
\<close>

theorem eval_fn_ess_is_normalised:
  assumes "eval_fn_target (Some target) aug_log_prob x x_flow_original x_flow_aug log_prob_flow dg
             = Inr dg'"
  shows "\<exists>s log_w.
      broadcast2 (+) (target x_flow_original) (aug_log_prob x_flow_aug) = Inr s
    \<and> broadcast2 (-) s log_prob_flow = Inr log_w
    \<and> (log_w \<noteq> [] \<longrightarrow>
         dg' ''ess'' =
           Some (1 / (\<Sum>i<length log_w.
                        (exp (log_w ! i) / (\<Sum>j<length log_w. exp (log_w ! j))) ^ 2)
                   / real (length log_w))
       \<and> (\<forall>c. log_w = replicate (length log_w) c \<longrightarrow> dg' ''ess'' = Some 1))"
proof -
  from assms obtain s log_w kl where
    a: "broadcast2 (+) (target x_flow_original) (aug_log_prob x_flow_aug) = Inr s"
    and b: "broadcast2 (-) s log_prob_flow = Inr log_w"
    and d: "dg' = dg ++ [''eval_kl'' \<mapsto> kl,
               ''ess'' \<mapsto> 1 / sum_list (map (\<lambda>w. w ^ 2) (softmax log_w)) / real (length log_w)]"
    unfolding eval_fn_target_def Let_def
    by (auto split: sum.splits option.splits)
  from d have ess: "dg' ''ess'' =
      Some (1 / sum_list (map (\<lambda>w. w ^ 2) (softmax log_w)) / real (length log_w))"
    by simp
  have "sum_list (map (\<lambda>w. w ^ 2) (softmax log_w)) =
      (\<Sum>i<length log_w. (exp (log_w ! i) / (\<Sum>j<length log_w. exp (log_w ! j))) ^ 2)"
    by (simp add: softmax_plain sum_list_nth_sum comp_def)
  with ess have f: "dg' ''ess'' =
         Some (1 / (\<Sum>i<length log_w. (exp (log_w ! i) / (\<Sum>j<length log_w. exp (log_w ! j))) ^ 2)
                 / real (length log_w))"
    by simp
  have u: "dg' ''ess'' = Some 1" if "log_w \<noteq> []" "log_w = replicate (length log_w) c" for c
  proof -
    from that(1) have "0 < length log_w" by simp
    from ess_uniform [OF this, of c] that(2) ess show ?thesis by simp
  qed
  from a b f u show ?thesis by blast
qed

lemma softmax_two_zeros: "softmax [0, 0] = [1 / 2, 1 / 2]"
  by (simp add: softmax_plain)

lemma toy_eval:
  "eval_fn_target (Some (\<lambda>v. v)) (\<lambda>v. v) [1, 3] [0, 0] [0, 0] [0, 0] [''eval_log_lik'' \<mapsto> 0]
     = Inr ([''eval_log_lik'' \<mapsto> 0] ++ [''eval_kl'' \<mapsto> 2, ''ess'' \<mapsto> 1])"
  by (simp add: eval_fn_target_def broadcast2_def softmax_two_zeros mean_def power2_eq_square)

theorem eval_fn_ess_is_normalised_witness:
  "eval_fn_target (Some (\<lambda>v. v)) (\<lambda>v. v) [1, 3] [0, 0] [0, 0] [0, 0] [''eval_log_lik'' \<mapsto> 0]
     = Inr ([''eval_log_lik'' \<mapsto> 0] ++ [''eval_kl'' \<mapsto> 2, ''ess'' \<mapsto> 1])
   \<and> broadcast2 (-) [0, 0] [0, 0] = Inr [0, 0]
   \<and> [0 :: real, 0] \<noteq> [] \<and> [0 :: real, 0] = replicate (length [0 :: real, 0]) 0
   \<and> ([''eval_log_lik'' \<mapsto> 0] ++ [''eval_kl'' \<mapsto> 2, ''ess'' \<mapsto> (1 :: real)]) ''ess'' = Some 1
   \<and> (\<Sum>i<length [0 :: real, 0]. (exp ([0, 0] ! i) / (\<Sum>j<length [0 :: real, 0]. exp ([0, 0] ! j))) ^ 2)
        = (1 / 2 :: real)"
proof -
  have two: "{..<2::nat} = {0, 1}" by auto
  have r: "[0 :: real, 0] = replicate (length [0 :: real, 0]) 0"
    by (simp add: numeral_2_eq_2)
  from eval_fn_ess_is_normalised [OF toy_eval]
  obtain s log_w where
    a: "broadcast2 (+) [0, 0] [0, 0] = Inr s" and b: "broadcast2 (-) s [0, 0] = Inr log_w"
    and c: "log_w \<noteq> [] \<longrightarrow> (\<forall>c. log_w = replicate (length log_w) c \<longrightarrow>
              ([''eval_log_lik'' \<mapsto> 0] ++ [''eval_kl'' \<mapsto> 2, ''ess'' \<mapsto> (1 :: real)]) ''ess'' = Some 1)"
    by blast
  from a have s: "s = [0, 0]" by (simp add: broadcast2_def)
  with b have lw: "log_w = [0, 0]" by (simp add: broadcast2_def)
  from c lw r have e: "([''eval_log_lik'' \<mapsto> 0] ++ [''eval_kl'' \<mapsto> 2, ''ess'' \<mapsto> (1 :: real)]) ''ess'' = Some 1"
    by blast
  have f: "(\<Sum>i<length [0 :: real, 0]. (exp ([0, 0] ! i) / (\<Sum>j<length [0 :: real, 0]. exp ([0, 0] ! j))) ^ 2)
        = (1 / 2 :: real)"
    by (simp add: two power2_eq_square)
  from toy_eval b s lw r e f show ?thesis by simp
qed

text \<open>
  The claim as the spec words it fails: for two particles with equal log-weights the
  normalised weights are both \<open>1 / 2\<close> and \<open>1 / \<Sum> (normalised weight)\<^sup>2\<close> is the particle
  count 2, but the \<open>ess\<close> entry of the evaluation is 1.
\<close>

theorem ess_of_two_uniform_particles:
  "\<exists>dg'. eval_fn_target (Some (\<lambda>v. v)) (\<lambda>v. v) [1, 3] [0, 0] [0, 0] [0, 0]
            [''eval_log_lik'' \<mapsto> 0] = Inr dg'
     \<and> dg' ''ess'' = Some 1
     \<and> softmax [0, 0] = [1 / 2, 1 / 2]
     \<and> 1 / sum_list (map (\<lambda>w. w ^ 2) (softmax [0, 0])) = 2
     \<and> dg' ''ess'' \<noteq> Some (1 / sum_list (map (\<lambda>w. w ^ 2) (softmax [0, 0])))
     \<and> dg' ''ess'' \<noteq> Some (real (length [0 :: real, 0]))"
proof -
  have "1 / sum_list (map (\<lambda>w. w ^ 2) (softmax [0, 0])) = (2 :: real)"
    by (simp add: softmax_two_zeros power2_eq_square)
  with toy_eval softmax_two_zeros show ?thesis by simp
qed

subsection \<open>The double-well log-density\<close>

lemma energy_default_rank2:
  assumes "ndim x = 2"
  shows "\<exists>e. energy_default x = Inr e"
proof -
  from assms obtain d where d: "get_pairwise_distances x = Inr d"
    by (simp add: get_pairwise_distances_def)
  show ?thesis
    unfolding energy_default_def energy_def d Let_def
    by (simp only: sum.case) blast
qed

lemma unstack_ndim:
  "length (shape x) = 3 \<Longrightarrow> s \<in> set (unstack x) \<Longrightarrow> ndim s = 2"
  by (auto simp: unstack_def ndim_def Let_def)

lemma length_unstack: "length (unstack x) = hd (shape x)"
  by (simp add: unstack_def Let_def)

lemma vmap_total:
  "(\<And>s. s \<in> set ss \<Longrightarrow> \<exists>v. f s = Inr v) \<Longrightarrow>
   \<exists>vs. vmap f ss = Inr vs \<and> length vs = length ss \<and> (\<forall>i<length ss. f (ss ! i) = Inr (vs ! i))"
proof (induction ss)
  case Nil
  then show ?case by simp
next
  case (Cons s ss)
  from Cons.prems [of s] obtain v where v: "f s = Inr v" by auto
  from Cons.IH Cons.prems obtain vs where
    vs: "vmap f ss = Inr vs" "length vs = length ss" "\<forall>i<length ss. f (ss ! i) = Inr (vs ! i)"
    by auto
  have "\<forall>i<length (s # ss). f ((s # ss) ! i) = Inr ((v # vs) ! i)"
    using v vs(3) by (auto simp: nth_Cons split: nat.splits)
  with v vs show ?case by simp
qed

lemma sum_list_map_nth:
  "sum_list (map f xs) = (\<Sum>i<length xs. (f (xs ! i) :: real))"
proof -
  have "sum_list (map f xs) = (\<Sum>i<length (map f xs). map f xs ! i)"
    by (rule sum_list_nth_sum)
  then show ?thesis by simp
qed

lemma rows_rank2:
  assumes "shape x = [n, d]" and "length (data x) = n * d"
  shows "length (rows x) = n"
    and "i < n \<Longrightarrow> length (rows x ! i) = d"
    and "i < n \<Longrightarrow> k < d \<Longrightarrow> rows x ! i ! k = data x ! (i * d + k)"
proof -
  show "length (rows x) = n"
    using assms(1) by (simp add: rows_def)
  have le: "i * d + d \<le> n * d" if "i < n"
  proof -
    from that have "Suc i \<le> n" by simp
    then have "Suc i * d \<le> n * d" by (rule mult_le_mono1)
    then show ?thesis by (simp add: add.commute)
  qed
  show "length (rows x ! i) = d" if "i < n"
    using assms that le [OF that] by (simp add: rows_def)
  show "rows x ! i ! k = data x ! (i * d + k)" if "i < n" "k < d"
    using assms that le [OF that(1)] by (simp add: rows_def)
qed

lemma pairwise_entry:
  assumes "shape x = [n, d]" and "length (data x) = n * d" and "i < n" and "j < n"
  shows "sum_list (map2 (\<lambda>u v. (u - v) ^ 2) (rows x ! j) (rows x ! i)) =
    (\<Sum>k<d. (data x ! (j * d + k) - data x ! (i * d + k)) ^ 2)"
proof -
  have l: "length (rows x ! j) = d" "length (rows x ! i) = d"
    using rows_rank2(2) [OF assms(1,2)] assms(3,4) by simp_all
  then have "map2 (\<lambda>u v. (u - v) ^ 2) (rows x ! j) (rows x ! i) =
      map (\<lambda>k. (rows x ! j ! k - rows x ! i ! k) ^ 2) [0..<d]"
    using map2_as_upt [of "rows x ! j" "rows x ! i" "\<lambda>u v. (u - v) ^ 2"] by simp
  also have "\<dots> = map (\<lambda>k. (data x ! (j * d + k) - data x ! (i * d + k)) ^ 2) [0..<d]"
    using rows_rank2(3) [OF assms(1,2)] assms(3,4) by simp
  finally show ?thesis
    by (simp add: sum_list_map_nth)
qed

lemma energy_default_formula:
  assumes "shape x = [n, d]" and "length (data x) = n * d"
  shows "energy_default x =
    Inr ((\<Sum>i<n. \<Sum>j<n.
            0 * (sqrt (\<Sum>k<d. (data x ! (j * d + k) - data x ! (i * d + k)) ^ 2) - 4)
            + (- 4) * (sqrt (\<Sum>k<d. (data x ! (j * d + k) - data x ! (i * d + k)) ^ 2) - 4) ^ 2
            + 9 / 10 * (sqrt (\<Sum>k<d. (data x ! (j * d + k) - data x ! (i * d + k)) ^ 2) - 4) ^ 4)
          / 1 / 2)"
proof -
  let ?dist = "\<lambda>i j. sqrt (\<Sum>k<d. (data x ! (j * d + k) - data x ! (i * d + k)) ^ 2)"
  let ?phi = "\<lambda>v :: real. 0 * v + (- 4) * v ^ 2 + 9 / 10 * v ^ 4"
  have n: "length (rows x) = n" by (rule rows_rank2(1) [OF assms])
  have r: "ndim x = 2" using assms(1) by (simp add: ndim_def)
  have "energy_default x =
      Inr (sum_list (map (\<lambda>row. sum_list (map ?phi row))
              (map (map (\<lambda>v. v - 4))
                 (map (\<lambda>xi. map (\<lambda>xj. sqrt (sum_list (map2 (\<lambda>u v. (u - v) ^ 2) xj xi))) (rows x))
                    (rows x)))) / 1 / 2)"
    using r by (simp add: energy_default_def energy_def get_pairwise_distances_def Let_def)
  also have "sum_list (map (\<lambda>row. sum_list (map ?phi row))
              (map (map (\<lambda>v. v - 4))
                 (map (\<lambda>xi. map (\<lambda>xj. sqrt (sum_list (map2 (\<lambda>u v. (u - v) ^ 2) xj xi))) (rows x))
                    (rows x))))
      = (\<Sum>i<n. \<Sum>j<n. ?phi (?dist i j - 4))"
  proof -
    have "sum_list (map (\<lambda>row. sum_list (map ?phi row))
              (map (map (\<lambda>v. v - 4))
                 (map (\<lambda>xi. map (\<lambda>xj. sqrt (sum_list (map2 (\<lambda>u v. (u - v) ^ 2) xj xi))) (rows x))
                    (rows x))))
        = (\<Sum>i<n. \<Sum>j<n.
             ?phi (sqrt (sum_list (map2 (\<lambda>u v. (u - v) ^ 2) (rows x ! j) (rows x ! i))) - 4))"
      by (simp add: sum_list_map_nth n comp_def)
    also have "\<dots> = (\<Sum>i<n. \<Sum>j<n. ?phi (?dist i j - 4))"
      by (intro sum.cong refl) (simp add: pairwise_entry [OF assms])
    finally show ?thesis .
  qed
  finally show ?thesis .
qed

lemma unstack_rank3:
  assumes "length (shape x) = 3"
  shows "unstack x =
    map (\<lambda>i. \<lparr>shape = [shape x ! 1, shape x ! 2],
               data = take (shape x ! 1 * shape x ! 2)
                        (drop (i * (shape x ! 1 * shape x ! 2)) (data x))\<rparr>)
      [0..<shape x ! 0]"
proof -
  from assms obtain b n d where s: "shape x = [b, n, d]"
    by (cases "shape x"; simp; rename_tac a as, case_tac as; simp; rename_tac a2 as2,
        case_tac as2; simp)
  then show ?thesis
    by (simp add: unstack_def Let_def)
qed

text \<open>
  C9. For every input of rank 2, \<open>energy\<close> (with its default hyper-parameters) is
  defined and \<open>log_prob_fn\<close> returns the scalar that is minus this energy; when the
  array has as many entries as its shape says, the energy is half the sum over all ordered
  pairs of rows of \<open>- 4 (r - 4)\<^sup>2 + 0.9 (r - 4)\<^sup>4\<close>, with \<open>r\<close> the Euclidean distance of the
  two rows. For every input of rank 3 and shape \<open>[b, n, d]\<close> it returns the vector whose
  entry \<open>i\<close> is minus the energy of configuration \<open>i\<close>, the array of shape \<open>[n, d]\<close> that
  holds the entries \<open>i * n * d\<close> to \<open>(i + 1) * n * d - 1\<close> of the input, each of them
  defined. For an input of any other rank it raises the exception.
\<close>

theorem log_prob_fn_by_rank:
  "(length (shape x) = 2 \<longrightarrow>
      (\<exists>e. energy_default x = Inr e \<and> log_prob_fn x = Inr (Scalar (- e))
         \<and> (length (data x) = shape x ! 0 * shape x ! 1 \<longrightarrow>
              e = (\<Sum>i<shape x ! 0. \<Sum>j<shape x ! 0.
                    - 4 * (sqrt (\<Sum>k<shape x ! 1.
                             (data x ! (j * shape x ! 1 + k) - data x ! (i * shape x ! 1 + k)) ^ 2)
                           - 4) ^ 2
                    + 9 / 10 * (sqrt (\<Sum>k<shape x ! 1.
                             (data x ! (j * shape x ! 1 + k) - data x ! (i * shape x ! 1 + k)) ^ 2)
                           - 4) ^ 4) / 2)))
   \<and> (length (shape x) = 3 \<longrightarrow>
      (\<exists>es. length es = shape x ! 0
         \<and> (\<forall>i<shape x ! 0.
               energy_default
                 \<lparr>shape = [shape x ! 1, shape x ! 2],
                  data = take (shape x ! 1 * shape x ! 2)
                           (drop (i * (shape x ! 1 * shape x ! 2)) (data x))\<rparr> = Inr (es ! i))
         \<and> log_prob_fn x = Inr (Vector (map uminus es))))
   \<and> (length (shape x) \<noteq> 2 \<and> length (shape x) \<noteq> 3 \<longrightarrow> log_prob_fn x = Inl PyException)"
proof (intro conjI impI)
  assume r: "length (shape x) = 2"
  then obtain e where e: "energy_default x = Inr e"
    using energy_default_rank2 [of x] by (auto simp: ndim_def)
  have "e = (\<Sum>i<shape x ! 0. \<Sum>j<shape x ! 0.
                    - 4 * (sqrt (\<Sum>k<shape x ! 1.
                             (data x ! (j * shape x ! 1 + k) - data x ! (i * shape x ! 1 + k)) ^ 2)
                           - 4) ^ 2
                    + 9 / 10 * (sqrt (\<Sum>k<shape x ! 1.
                             (data x ! (j * shape x ! 1 + k) - data x ! (i * shape x ! 1 + k)) ^ 2)
                           - 4) ^ 4) / 2"
    if w: "length (data x) = shape x ! 0 * shape x ! 1"
  proof -
    from r have s: "shape x = [shape x ! 0, shape x ! 1]"
      by (cases "shape x"; simp; rename_tac a as, case_tac as; simp)
    from energy_default_formula [OF s w] e show ?thesis by simp
  qed
  with r e show "\<exists>e. energy_default x = Inr e \<and> log_prob_fn x = Inr (Scalar (- e))
         \<and> (length (data x) = shape x ! 0 * shape x ! 1 \<longrightarrow>
              e = (\<Sum>i<shape x ! 0. \<Sum>j<shape x ! 0.
                    - 4 * (sqrt (\<Sum>k<shape x ! 1.
                             (data x ! (j * shape x ! 1 + k) - data x ! (i * shape x ! 1 + k)) ^ 2)
                           - 4) ^ 2
                    + 9 / 10 * (sqrt (\<Sum>k<shape x ! 1.
                             (data x ! (j * shape x ! 1 + k) - data x ! (i * shape x ! 1 + k)) ^ 2)
                           - 4) ^ 4) / 2)"
    by (simp add: log_prob_fn_def)
next
  assume r: "length (shape x) = 3"
  let ?slice = "\<lambda>i. \<lparr>shape = [shape x ! 1, shape x ! 2],
               data = take (shape x ! 1 * shape x ! 2)
                        (drop (i * (shape x ! 1 * shape x ! 2)) (data x))\<rparr>"
  have u: "unstack x = map ?slice [0..<shape x ! 0]"
    by (rule unstack_rank3 [OF r])
  have "\<And>s. s \<in> set (unstack x) \<Longrightarrow> \<exists>v. energy_default s = Inr v"
    using unstack_ndim [OF r] energy_default_rank2 by blast
  from vmap_total [of "unstack x" energy_default, OF this] obtain es where
    es: "vmap energy_default (unstack x) = Inr es" "length es = length (unstack x)"
      "\<forall>i<length (unstack x). energy_default (unstack x ! i) = Inr (es ! i)"
    by blast
  from r es(1) have "log_prob_fn x = Inr (Vector (map uminus es))"
    by (simp add: log_prob_fn_def)
  moreover from es(2) u have "length es = shape x ! 0" by simp
  moreover from es(3) u have "\<forall>i<shape x ! 0. energy_default (?slice i) = Inr (es ! i)"
    by simp
  ultimately show "\<exists>es. length es = shape x ! 0
         \<and> (\<forall>i<shape x ! 0. energy_default (?slice i) = Inr (es ! i))
         \<and> log_prob_fn x = Inr (Vector (map uminus es))"
    by blast
next
  assume "length (shape x) \<noteq> 2 \<and> length (shape x) \<noteq> 3"
  then show "log_prob_fn x = Inl PyException"
    by (simp add: log_prob_fn_def)
qed

lemma sqrt16: "sqrt 16 = 4"
  using real_sqrt_abs [of 4] by simp

lemma sqrt25: "sqrt 25 = 5"
  using real_sqrt_abs [of 5] by simp

lemma toy_energy_a: "energy_default \<lparr>shape = [2, 2], data = [0, 0, 3, 4]\<rparr> = Inr (1633 / 10)"
  by (simp add: energy_default_def energy_def get_pairwise_distances_def rows_def ndim_def
      upt2 sqrt25 Let_def)

lemma toy_energy_b: "energy_default \<lparr>shape = [2, 2], data = [0, 0, 0, 4]\<rparr> = Inr (832 / 5)"
  by (simp add: energy_default_def energy_def get_pairwise_distances_def rows_def ndim_def
      upt2 sqrt16 Let_def)

text \<open>
  A configuration of the two points \<open>(0, 0)\<close> and \<open>(3, 4)\<close>, a batch of this configuration
  and of the configuration \<open>(0, 0)\<close>, \<open>(0, 4)\<close>, and an array of rank 1.
\<close>

theorem log_prob_fn_by_rank_witness:
  "length (shape \<lparr>shape = [2, 2], data = [0, 0, 3, 4]\<rparr>) = 2
   \<and> length (data \<lparr>shape = [2, 2], data = [0, 0, 3, 4]\<rparr>) = 2 * 2
   \<and> energy_default \<lparr>shape = [2, 2], data = [0, 0, 3, 4]\<rparr> = Inr (1633 / 10)
   \<and> log_prob_fn \<lparr>shape = [2, 2], data = [0, 0, 3, 4]\<rparr> = Inr (Scalar (- (1633 / 10)))
   \<and> (1633 / 10 :: real) =
        (\<Sum>i<2. \<Sum>j<2.
           - 4 * (sqrt (\<Sum>k<2. ([0, 0, 3, 4] ! (j * 2 + k) - [0, 0, 3, 4] ! (i * 2 + k)) ^ 2) - 4) ^ 2
           + 9 / 10 * (sqrt (\<Sum>k<2. ([0, 0, 3, 4] ! (j * 2 + k) - [0, 0, 3, 4] ! (i * 2 + k)) ^ 2) - 4) ^ 4)
        / 2
   \<and> length (shape \<lparr>shape = [2, 2, 2], data = [0, 0, 3, 4, 0, 0, 0, 4]\<rparr>) = 3
   \<and> energy_default \<lparr>shape = [2, 2], data = [0, 0, 0, 4]\<rparr> = Inr (832 / 5)
   \<and> log_prob_fn \<lparr>shape = [2, 2, 2], data = [0, 0, 3, 4, 0, 0, 0, 4]\<rparr>
        = Inr (Vector [- (1633 / 10), - (832 / 5)])
   \<and> length (shape \<lparr>shape = [4], data = [0, 0, 3, 4]\<rparr>) \<noteq> 2
   \<and> length (shape \<lparr>shape = [4], data = [0, 0, 3, 4]\<rparr>) \<noteq> 3
   \<and> log_prob_fn \<lparr>shape = [4], data = [0, 0, 3, 4]\<rparr> = Inl PyException"
proof -
  let ?x2 = "\<lparr>shape = [2, 2], data = [0, 0, 3, 4]\<rparr>"
  let ?x3 = "\<lparr>shape = [2, 2, 2], data = [0, 0, 3, 4, 0, 0, 0, 4]\<rparr>"
  let ?x1 = "\<lparr>shape = [4], data = [0, 0, 3, 4]\<rparr>"
  from log_prob_fn_by_rank [of ?x2] toy_energy_a
  have a: "log_prob_fn ?x2 = Inr (Scalar (- (1633 / 10)))"
    and f: "(1633 / 10 :: real) =
        (\<Sum>i<2. \<Sum>j<2.
           - 4 * (sqrt (\<Sum>k<2. ([0, 0, 3, 4] ! (j * 2 + k) - [0, 0, 3, 4] ! (i * 2 + k)) ^ 2) - 4) ^ 2
           + 9 / 10 * (sqrt (\<Sum>k<2. ([0, 0, 3, 4] ! (j * 2 + k) - [0, 0, 3, 4] ! (i * 2 + k)) ^ 2) - 4) ^ 4)
        / 2"
    by auto
  from log_prob_fn_by_rank [of ?x3] obtain es where
    es: "length es = 2"
      "\<forall>i<2. energy_default \<lparr>shape = [2, 2],
               data = take 4 (drop (i * 4) [0, 0, 3, 4, 0, 0, 0, 4])\<rparr> = Inr (es ! i)"
      "log_prob_fn ?x3 = Inr (Vector (map uminus es))"
    by auto
  from es(2) have "energy_default \<lparr>shape = [2, 2], data = take 4 (drop (0 * 4) [0, 0, 3, 4, 0, 0, 0, 4])\<rparr>
      = Inr (es ! 0)"
    by (elim allE [of _ 0]) simp
  with toy_energy_a have e0: "es ! 0 = 1633 / 10" by simp
  from es(2) have "energy_default \<lparr>shape = [2, 2], data = take 4 (drop (1 * 4) [0, 0, 3, 4, 0, 0, 0, 4])\<rparr>
      = Inr (es ! 1)"
    by (elim allE [of _ 1]) simp
  with toy_energy_b have e1: "es ! 1 = 832 / 5" by simp
  from es(1) e0 e1 have "es = [1633 / 10, 832 / 5]"
    by (cases es; simp; rename_tac v vs, case_tac vs; simp)
  with es(3) have b: "log_prob_fn ?x3 = Inr (Vector [- (1633 / 10), - (832 / 5)])" by simp
  from log_prob_fn_by_rank [of ?x1] have c: "log_prob_fn ?x1 = Inl PyException"
    by simp
  from toy_energy_a toy_energy_b a f b c show ?thesis by simp
qed

end
